theory Spec2Isabelle
  imports Complex_Main "HOL-Library.Word"
begin

section \<open>Data model of pneumonia\_classification.py\<close>

text \<open>
  The script is glue around OpenCV, NumPy, the operating system and Keras. What the
  script itself decides (which files are listed, in which order they are read, which
  labels are attached, how the two image lists are combined, how the network's outputs
  are thresholded) is modelled here; the library calls are modelled by their contract,
  and the parts of them the script cannot influence (the interpolation kernel of
  \<open>cv.resize\<close>, the trained network) are parameters.
\<close>

type_synonym uint8 = "8 word"

text \<open>A decoded single-channel image, as \<open>cv.imread(..., cv.IMREAD_GRAYSCALE)\<close> and
  \<open>cv.resize\<close> return it: a two-dimensional array of bytes.\<close>

record mat =
  rows :: nat
  cols :: nat
  pix :: "uint8 list"

text \<open>A NumPy array: its shape and its elements in row-major order.\<close>

record ndarray =
  shape :: "nat list"
  data :: "uint8 list"

datatype error =
    KeyError string
  | FileNotFoundError string
  | CvError
  | ValueError
  | IndexError
  | TypeError

text \<open>The disk, as the script observes it: \<open>listdir\<close> (absent for a path that is not a
  readable directory), \<open>isfile\<close>, and the grayscale decoder behind \<open>cv.imread\<close>, which
  yields no image for a file that is missing or cannot be decoded.\<close>

record filesystem =
  dir_entries :: "string \<rightharpoonup> string list"
  regular_file :: "string \<Rightarrow> bool"
  decode_gray :: "string \<rightharpoonup> mat"

datatype fs_op = ListDir string | IsFile string | ImRead string

text \<open>The state of the process that \<open>load_images\<close> can touch: the module-level
  \<open>path_dict\<close>, the lines written to standard output, and the trace of disk accesses.\<close>

record pstate =
  path_dict :: "string \<rightharpoonup> (string \<rightharpoonup> string)"
  stdout :: "string list"
  fs_log :: "fs_op list"

text \<open>Lines 15 to 17: the path table.\<close>

definition path_dict_init :: "string \<rightharpoonup> (string \<rightharpoonup> string)" where
  "path_dict_init =
     [''train'' \<mapsto> [''normal'' \<mapsto> ''chest_xray/train/NORMAL/'',
                     ''pneumonia'' \<mapsto> ''chest_xray/train/PNEUMONIA/''],
      ''test'' \<mapsto> [''normal'' \<mapsto> ''chest_xray/test/NORMAL/'',
                    ''pneumonia'' \<mapsto> ''chest_xray/test/PNEUMONIA/''],
      ''validation'' \<mapsto> [''normal'' \<mapsto> ''chest_xray/val/NORMAL/'',
                          ''pneumonia'' \<mapsto> ''chest_xray/val/PNEUMONIA/'']]"

definition init_state :: pstate where
  "init_state = \<lparr>path_dict = path_dict_init, stdout = [], fs_log = []\<rparr>"

section \<open>Library calls\<close>

text \<open>\<open>path_dict[subset][cls]\<close>: each subscript raises \<open>KeyError\<close> on a missing key.\<close>

definition lookup2 :: "(string \<rightharpoonup> (string \<rightharpoonup> string)) \<Rightarrow> string \<Rightarrow> string \<Rightarrow> error + string" where
  "lookup2 d subs cls =
     (case d subs of
        None \<Rightarrow> Inl (KeyError subs)
      | Some inner \<Rightarrow>
          (case inner cls of None \<Rightarrow> Inl (KeyError cls) | Some p \<Rightarrow> Inr p))"

text \<open>\<open>os.path.join\<close> of two components (posixpath).\<close>

definition join :: "string \<Rightarrow> string \<Rightarrow> string" where
  "join a b =
     (if b \<noteq> [] \<and> hd b = CHR ''/'' then b
      else if a = [] \<or> last a = CHR ''/'' then a @ b
      else a @ ''/'' @ b)"

definition print_line :: "string \<Rightarrow> pstate \<Rightarrow> pstate" where
  "print_line l s = s\<lparr>stdout := stdout s @ [l]\<rparr>"

definition log_op :: "fs_op \<Rightarrow> pstate \<Rightarrow> pstate" where
  "log_op x s = s\<lparr>fs_log := fs_log s @ [x]\<rparr>"

definition listdir :: "filesystem \<Rightarrow> string \<Rightarrow> pstate \<Rightarrow> (error + string list) \<times> pstate" where
  "listdir fs p s =
     (case dir_entries fs p of
        None \<Rightarrow> (Inl (FileNotFoundError p), log_op (ListDir p) s)
      | Some es \<Rightarrow> (Inr es, log_op (ListDir p) s))"

definition isfile :: "filesystem \<Rightarrow> string \<Rightarrow> pstate \<Rightarrow> bool \<times> pstate" where
  "isfile fs p s = (regular_file fs p, log_op (IsFile p) s)"

definition cv_imread :: "filesystem \<Rightarrow> string \<Rightarrow> pstate \<Rightarrow> mat option \<times> pstate" where
  "cv_imread fs p s = (decode_gray fs p, log_op (ImRead p) s)"

text \<open>\<open>cv.resize(src, (w, h))\<close>: OpenCV asserts that the source is a non-empty image
  (so \<open>None\<close>, which \<open>cv.imread\<close> returns for an undecodable file, raises \<open>cv2.error\<close>)
  and produces an image of \<open>h\<close> rows and \<open>w\<close> columns. The value of each destination
  pixel is the interpolation kernel's business: \<open>ip src h w r c\<close>.\<close>

type_synonym interp = "mat \<Rightarrow> nat \<Rightarrow> nat \<Rightarrow> nat \<Rightarrow> nat \<Rightarrow> uint8"

definition mat_empty :: "mat \<Rightarrow> bool" where
  "mat_empty m = (rows m = 0 \<or> cols m = 0)"

definition cv_resize :: "interp \<Rightarrow> mat option \<Rightarrow> nat \<times> nat \<Rightarrow> error + mat" where
  "cv_resize ip src dsize =
     (case src of
        None \<Rightarrow> Inl CvError
      | Some m \<Rightarrow>
          (case dsize of (w, h) \<Rightarrow>
             if mat_empty m \<or> w = 0 \<or> h = 0 then Inl CvError
             else Inr \<lparr>rows = h, cols = w,
                       pix = concat (map (\<lambda>r. map (\<lambda>c. ip m h w r c) [0..<w]) [0..<h])\<rparr>))"

text \<open>\<open>np.asarray\<close> of a Python list of images: the empty list is the one-dimensional
  array of shape \<open>(0,)\<close>; a list of \<open>n\<close> images of one shape \<open>(h, w)\<close> is the array of
  shape \<open>(n, h, w)\<close>; images of different shapes do not form an array.\<close>

definition np_asarray :: "mat list \<Rightarrow> error + ndarray" where
  "np_asarray ms =
     (case ms of
        [] \<Rightarrow> Inr \<lparr>shape = [0], data = []\<rparr>
      | m # rest \<Rightarrow>
          if list_all (\<lambda>x. rows x = rows m \<and> cols x = cols m) rest
          then Inr \<lparr>shape = [length ms, rows m, cols m], data = concat (map pix ms)\<rparr>
          else Inl ValueError)"

text \<open>\<open>np.concatenate((a, b))\<close> along axis 0: the arrays must have the same number of
  dimensions (at least one) and agree on every dimension but the first.\<close>

definition np_concatenate :: "ndarray \<Rightarrow> ndarray \<Rightarrow> error + ndarray" where
  "np_concatenate a b =
     (if length (shape a) \<noteq> length (shape b) then Inl ValueError
      else
        (case (shape a, shape b) of
           (n # sa, m # sb) \<Rightarrow>
             if sa = sb then Inr \<lparr>shape = (n + m) # sa, data = data a @ data b\<rparr>
             else Inl ValueError
         | _ \<Rightarrow> Inl ValueError))"

text \<open>Line 44: \<open>np.concatenate((pos_images, neg_images))\<close>, on two Python lists.\<close>

definition concatenate_lists :: "mat list \<Rightarrow> mat list \<Rightarrow> error + ndarray" where
  "concatenate_lists pos_images neg_images =
     (case np_asarray pos_images of
        Inl e \<Rightarrow> Inl e
      | Inr a \<Rightarrow>
          (case np_asarray neg_images of
             Inl e \<Rightarrow> Inl e
           | Inr b \<Rightarrow> np_concatenate a b))"

text \<open>\<open>arr[i]\<close>: the \<open>i\<close>-th sub-array along the first axis.\<close>

definition np_index :: "ndarray \<Rightarrow> nat \<Rightarrow> error + ndarray" where
  "np_index a i =
     (case shape a of
        [] \<Rightarrow> Inl IndexError
      | n # rest \<Rightarrow>
          if i < n
          then Inr \<lparr>shape = rest,
                    data = take (prod_list rest) (drop (i * prod_list rest) (data a))\<rparr>
          else Inl IndexError)"

text \<open>\<open>len(arr)\<close>: the size of the first axis.\<close>

definition np_len :: "ndarray \<Rightarrow> error + nat" where
  "np_len a = (case shape a of [] \<Rightarrow> Inl TypeError | n # rest \<Rightarrow> Inr n)"

section \<open>load\_images\<close>

text \<open>Lines 27 and 28: \<open>[image for image in listdir(p) if isfile(join(p, image))]\<close>.\<close>

fun filter_isfile :: "filesystem \<Rightarrow> string \<Rightarrow> string list \<Rightarrow> pstate \<Rightarrow> string list \<times> pstate" where
  "filter_isfile fs p [] s = ([], s)"
| "filter_isfile fs p (img # es) s =
     (case isfile fs (join p img) s of
        (b, s1) \<Rightarrow>
          (case filter_isfile fs p es s1 of
             (keep, s2) \<Rightarrow> (if b then img # keep else keep, s2)))"

definition list_files :: "filesystem \<Rightarrow> string \<Rightarrow> pstate \<Rightarrow> (error + string list) \<times> pstate" where
  "list_files fs p s =
     (case listdir fs p s of
        (Inl e, s1) \<Rightarrow> (Inl e, s1)
      | (Inr es, s1) \<Rightarrow>
          (case filter_isfile fs p es s1 of (keep, s2) \<Rightarrow> (Inr keep, s2)))"

text \<open>Lines 33 to 35 and 38 to 40: the two loops. Each iteration looks the directory up
  in \<open>path_dict\<close> again, reads and resizes one file, and appends the image; the first
  exception leaves the loop.\<close>

fun read_samples ::
  "interp \<Rightarrow> filesystem \<Rightarrow> string \<Rightarrow> string \<Rightarrow> string list \<Rightarrow> mat list \<Rightarrow> pstate
     \<Rightarrow> (error + mat list) \<times> pstate" where
  "read_samples ip fs subs cls [] images s = (Inr images, s)"
| "read_samples ip fs subs cls (sample # rest) images s =
     (case lookup2 (path_dict s) subs cls of
        Inl e \<Rightarrow> (Inl e, s)
      | Inr p \<Rightarrow>
          (case cv_imread fs (p @ sample) s of
             (src, s1) \<Rightarrow>
               (case cv_resize ip src (150, 150) of
                  Inl e \<Rightarrow> (Inl e, s1)
                | Inr img \<Rightarrow> read_samples ip fs subs cls rest (images @ [img]) s1)))"

definition load_images ::
  "interp \<Rightarrow> filesystem \<Rightarrow> pstate \<Rightarrow> string \<Rightarrow> (error + ndarray \<times> int list) \<times> pstate" where
  "load_images ip fs s subs =
     (let s0 = print_line (''Loading data, subset = '' @ subs) s in
      case lookup2 (path_dict s0) subs ''pneumonia'' of
        Inl e \<Rightarrow> (Inl e, s0)
      | Inr pos_path \<Rightarrow>
      (case lookup2 (path_dict s0) subs ''normal'' of
        Inl e \<Rightarrow> (Inl e, s0)
      | Inr neg_path \<Rightarrow>
      (case list_files fs pos_path s0 of
        (Inl e, s1) \<Rightarrow> (Inl e, s1)
      | (Inr pos_files, s1) \<Rightarrow>
      (case list_files fs neg_path s1 of
        (Inl e, s2) \<Rightarrow> (Inl e, s2)
      | (Inr neg_files, s2) \<Rightarrow>
      (case read_samples ip fs subs ''pneumonia'' pos_files [] s2 of
        (Inl e, s3) \<Rightarrow> (Inl e, s3)
      | (Inr pos_images, s3) \<Rightarrow>
      (let labels = replicate (length pos_images) 1 in
       case read_samples ip fs subs ''normal'' neg_files [] s3 of
        (Inl e, s4) \<Rightarrow> (Inl e, s4)
      | (Inr neg_images, s4) \<Rightarrow>
      (let labels = labels @ replicate (length neg_images) 0 in
       case concatenate_lists pos_images neg_images of
        Inl e \<Rightarrow> (Inl e, s4)
      | Inr images \<Rightarrow> (Inr (images, labels), s4))))))))"


section \<open>The CNN evaluation path\<close>

text \<open>A value of NumPy's float32: a finite number, an infinity or NaN.\<close>

datatype float32 = Finite real | PosInf | NegInf | NaN

text \<open>The IEEE 754 comparison \<open>x > y\<close> is false whenever an operand is NaN.\<close>

fun fgt :: "float32 \<Rightarrow> float32 \<Rightarrow> bool" where
  "fgt NaN y = False"
| "fgt x NaN = False"
| "fgt x PosInf = False"
| "fgt PosInf y = True"
| "fgt NegInf y = False"
| "fgt (Finite a) NegInf = True"
| "fgt (Finite a) (Finite b) = (b < a)"

text \<open>\<open>arr > y\<close> and \<open>.astype('int32')\<close>, elementwise on a two-dimensional array.\<close>

definition np_greater :: "float32 list list \<Rightarrow> float32 \<Rightarrow> bool list list" where
  "np_greater arr y = map (map (\<lambda>x. fgt x y)) arr"

definition astype_int32 :: "bool list list \<Rightarrow> 32 word list list" where
  "astype_int32 arr = map (map (\<lambda>b. if b then 1 else 0)) arr"

text \<open>\<open>np.expand_dims(a, axis=-1)\<close>.\<close>

definition expand_dims_last :: "ndarray \<Rightarrow> ndarray" where
  "expand_dims_last a = a\<lparr>shape := shape a @ [1]\<rparr>"

text \<open>Lines 168 and 169. The trained network, \<open>model.predict\<close>, is a parameter: it maps
  the test images to one row of sigmoid outputs per image.\<close>

definition cnn_predictions :: "(ndarray \<Rightarrow> float32 list list) \<Rightarrow> ndarray \<Rightarrow> 32 word list list" where
  "cnn_predictions model_predict X_test =
     (let X_test = expand_dims_last X_test
      in astype_int32 (np_greater (model_predict X_test) (Finite (1 / 2))))"

section \<open>Vocabulary of the statements\<close>

text \<open>A file is decodable when \<open>cv.imread\<close> yields a non-empty image for it.\<close>

definition decodable :: "filesystem \<Rightarrow> string \<Rightarrow> bool" where
  "decodable fs p = (case decode_gray fs p of None \<Rightarrow> False | Some m \<Rightarrow> \<not> mat_empty m)"

text \<open>The entries of a listing of directory \<open>p\<close> that are regular files, in listing order.\<close>

definition regular_entries :: "filesystem \<Rightarrow> string \<Rightarrow> string list \<Rightarrow> string list" where
  "regular_entries fs p es = filter (\<lambda>e. regular_file fs (join p e)) es"

text \<open>The 150 by 150 image that \<open>cv.resize\<close> makes of the file at \<open>p\<close>.\<close>

definition resized :: "interp \<Rightarrow> filesystem \<Rightarrow> string \<Rightarrow> mat" where
  "resized ip fs p = projr (cv_resize ip (decode_gray fs p) (150, 150))"

text \<open>An image seen as the two-dimensional array it is.\<close>

definition as_ndarray :: "mat \<Rightarrow> ndarray" where
  "as_ndarray m = \<lparr>shape = [rows m, cols m], data = pix m\<rparr>"

text \<open>The same disk with every directory entry that is not a regular file removed.\<close>

definition drop_nonregular :: "filesystem \<Rightarrow> filesystem" where
  "drop_nonregular fs =
     fs\<lparr>dir_entries := (\<lambda>p. map_option (regular_entries fs p) (dir_entries fs p))\<rparr>"

text \<open>Two disks look the same from directory \<open>d\<close>: the same listing, the same answer of
  \<open>isfile\<close> for every entry, and the same decoded image for every regular file.\<close>

definition same_view :: "filesystem \<Rightarrow> filesystem \<Rightarrow> string \<Rightarrow> bool" where
  "same_view fs1 fs2 d =
     (case dir_entries fs1 d of
        None \<Rightarrow> dir_entries fs2 d = None
      | Some es \<Rightarrow>
          dir_entries fs2 d = Some es
          \<and> list_all (\<lambda>e. regular_file fs1 (join d e) = regular_file fs2 (join d e)) es
          \<and> list_all (\<lambda>e. decode_gray fs1 (d @ e) = decode_gray fs2 (d @ e))
               (regular_entries fs1 d es))"

section \<open>Concrete inputs\<close>

text \<open>Nearest-neighbour interpolation, one possible kernel of \<open>cv.resize\<close>.\<close>

definition nearest :: interp where
  "nearest m h w r c = pix m ! ((r * rows m div h) * cols m + (c * cols m div w))"

definition tiny_image :: mat where
  "tiny_image = \<lparr>rows = 2, cols = 3, pix = [0, 50, 100, 150, 200, 250]\<rparr>"

text \<open>A train split with two pneumonia files (and a sub-directory beside them) and three
  normal files.\<close>

definition fs_demo :: filesystem where
  "fs_demo =
     \<lparr>dir_entries =
        [''chest_xray/train/PNEUMONIA/'' \<mapsto> [''p1.jpeg'', ''extra'', ''p2.jpeg''],
         ''chest_xray/train/NORMAL/'' \<mapsto> [''n1.jpeg'', ''n2.jpeg'', ''n3.jpeg'']],
      regular_file = (\<lambda>p. p \<in> set [''chest_xray/train/PNEUMONIA/p1.jpeg'',
                                      ''chest_xray/train/PNEUMONIA/p2.jpeg'',
                                      ''chest_xray/train/NORMAL/n1.jpeg'',
                                      ''chest_xray/train/NORMAL/n2.jpeg'',
                                      ''chest_xray/train/NORMAL/n3.jpeg'']),
      decode_gray = (\<lambda>p. if p = ''chest_xray/train/PNEUMONIA/extra'' then None
                          else Some tiny_image)\<rparr>"

text \<open>A train split whose pneumonia directory is empty and whose normal directory holds
  one file.\<close>

definition fs_one_class :: filesystem where
  "fs_one_class =
     \<lparr>dir_entries =
        [''chest_xray/train/PNEUMONIA/'' \<mapsto> [],
         ''chest_xray/train/NORMAL/'' \<mapsto> [''n1.jpeg'']],
      regular_file = (\<lambda>p. p = ''chest_xray/train/NORMAL/n1.jpeg''),
      decode_gray = (\<lambda>p. Some tiny_image)\<rparr>"

text \<open>A train split with both class directories empty.\<close>

definition fs_empty :: filesystem where
  "fs_empty =
     \<lparr>dir_entries =
        [''chest_xray/train/PNEUMONIA/'' \<mapsto> [], ''chest_xray/train/NORMAL/'' \<mapsto> []],
      regular_file = (\<lambda>p. False),
      decode_gray = (\<lambda>p. None)\<rparr>"

text \<open>A train split in which the second normal file is not an image.\<close>

definition fs_corrupt :: filesystem where
  "fs_corrupt =
     \<lparr>dir_entries =
        [''chest_xray/train/PNEUMONIA/'' \<mapsto> [''p1.jpeg''],
         ''chest_xray/train/NORMAL/'' \<mapsto> [''n1.jpeg'', ''notes.txt'']],
      regular_file = (\<lambda>p. True),
      decode_gray = (\<lambda>p. if p = ''chest_xray/train/NORMAL/notes.txt'' then None
                          else Some tiny_image)\<rparr>"

text \<open>A train split with no pneumonia file and one normal file that is not an image.\<close>

definition fs_one_class_corrupt :: filesystem where
  "fs_one_class_corrupt =
     \<lparr>dir_entries =
        [''chest_xray/train/PNEUMONIA/'' \<mapsto> [],
         ''chest_xray/train/NORMAL/'' \<mapsto> [''notes.txt'']],
      regular_file = (\<lambda>p. True),
      decode_gray = (\<lambda>p. None)\<rparr>"

text \<open>The disk of \<open>fs_demo\<close> with a file added to the test split, and a process that has
  already printed and read something.\<close>

definition fs_demo_more :: filesystem where
  "fs_demo_more =
     fs_demo\<lparr>dir_entries := (dir_entries fs_demo)(''chest_xray/test/NORMAL/'' \<mapsto> [''t1.jpeg''])\<rparr>"

definition busy_state :: pstate where
  "busy_state =
     \<lparr>path_dict = path_dict_init, stdout = [''Training SVM classifier...''],
      fs_log = [ListDir ''chest_xray/test/NORMAL/'']\<rparr>"

text \<open>A stand-in for a trained network: four test images, one sigmoid output each.\<close>

definition demo_model :: "ndarray \<Rightarrow> float32 list list" where
  "demo_model X = [[Finite (9 / 10)], [Finite (1 / 2)], [Finite (1 / 10)], [NaN]]"

definition demo_X_test :: ndarray where
  "demo_X_test = \<lparr>shape = [4, 150, 150], data = replicate (4 * 150 * 150) 0\<rparr>"

section \<open>How the loader computes\<close>

lemma path_dict_log_op [simp]: "path_dict (log_op x s) = path_dict s"
  by (simp add: log_op_def)

lemma stdout_log_op [simp]: "stdout (log_op x s) = stdout s"
  by (simp add: log_op_def)

lemma fs_log_log_op [simp]: "fs_log (log_op x s) = fs_log s @ [x]"
  by (simp add: log_op_def)

lemma filter_isfile_fst: "fst (filter_isfile fs p es s) = regular_entries fs p es"
proof (induction es arbitrary: s)
  case Nil
  then show ?case by (simp add: regular_entries_def)
next
  case (Cons e es)
  obtain keep s2 where f: "filter_isfile fs p es (log_op (IsFile (join p e)) s) = (keep, s2)"
    by (cases "filter_isfile fs p es (log_op (IsFile (join p e)) s)")
  with Cons.IH [of "log_op (IsFile (join p e)) s"] have "keep = regular_entries fs p es"
    by simp
  with f show ?case by (simp add: isfile_def regular_entries_def)
qed

lemma filter_isfile_snd:
  "snd (filter_isfile fs p es s) = s\<lparr>fs_log := fs_log s @ map (\<lambda>e. IsFile (join p e)) es\<rparr>"
proof (induction es arbitrary: s)
  case Nil
  then show ?case by simp
next
  case (Cons e es)
  obtain keep s2 where f: "filter_isfile fs p es (log_op (IsFile (join p e)) s) = (keep, s2)"
    by (cases "filter_isfile fs p es (log_op (IsFile (join p e)) s)")
  with Cons.IH [of "log_op (IsFile (join p e)) s"] show ?case
    by (simp add: isfile_def log_op_def)
qed

lemma list_files_eq:
  "list_files fs p s =
     (case dir_entries fs p of
        None \<Rightarrow> (Inl (FileNotFoundError p), s\<lparr>fs_log := fs_log s @ [ListDir p]\<rparr>)
      | Some es \<Rightarrow>
          (Inr (regular_entries fs p es),
           s\<lparr>fs_log := fs_log s @ ListDir p # map (\<lambda>e. IsFile (join p e)) es\<rparr>))"
proof (cases "dir_entries fs p")
  case None
  then show ?thesis by (simp add: list_files_def listdir_def log_op_def)
next
  case (Some es)
  obtain keep s2 where f: "filter_isfile fs p es (log_op (ListDir p) s) = (keep, s2)"
    by (cases "filter_isfile fs p es (log_op (ListDir p) s)")
  from f have "keep = regular_entries fs p es"
    using filter_isfile_fst [of fs p es "log_op (ListDir p) s"] by simp
  moreover from f have "s2 = s\<lparr>fs_log := fs_log s @ ListDir p # map (\<lambda>e. IsFile (join p e)) es\<rparr>"
    using filter_isfile_snd [of fs p es "log_op (ListDir p) s"] by (simp add: log_op_def)
  ultimately show ?thesis using Some f by (simp add: list_files_def listdir_def)
qed

lemma cv_resize_cases:
  "cv_resize ip (decode_gray fs q) (150, 150) =
     (if decodable fs q then Inr (resized ip fs q) else Inl CvError)"
  by (auto simp: cv_resize_def decodable_def resized_def split: option.splits)

lemma read_samples_fst:
  "lookup2 (path_dict s) subs cls = Inr p \<Longrightarrow>
   fst (read_samples ip fs subs cls xs images s) =
     (if list_all (\<lambda>x. decodable fs (p @ x)) xs
      then Inr (images @ map (\<lambda>x. resized ip fs (p @ x)) xs)
      else Inl CvError)"
proof (induction xs arbitrary: images s)
  case Nil
  then show ?case by simp
next
  case (Cons x xs)
  have pd: "lookup2 (path_dict (log_op (ImRead (p @ x)) s)) subs cls = Inr p"
    using Cons.prems by simp
  show ?case
    using Cons.prems Cons.IH [OF pd]
    by (simp add: cv_imread_def cv_resize_cases)
qed

lemma read_samples_snd:
  "path_dict (snd (read_samples ip fs subs cls xs images s)) = path_dict s \<and>
   stdout (snd (read_samples ip fs subs cls xs images s)) = stdout s \<and>
   (\<exists>ops. fs_log (snd (read_samples ip fs subs cls xs images s)) = fs_log s @ ops)"
proof (induction xs arbitrary: images s)
  case Nil
  then show ?case by simp
next
  case (Cons x xs)
  show ?case
  proof (cases "lookup2 (path_dict s) subs cls")
    case (Inl e)
    then show ?thesis by simp
  next
    case (Inr p)
    show ?thesis
    proof (cases "cv_resize ip (decode_gray fs (p @ x)) (150, 150)")
      case (Inl e)
      then show ?thesis using Inr by (simp add: cv_imread_def)
    next
      case (Inr m)
      with \<open>lookup2 (path_dict s) subs cls = Inr p\<close>
        Cons.IH [of "images @ [m]" "log_op (ImRead (p @ x)) s"]
      show ?thesis by (auto simp: cv_imread_def)
    qed
  qed
qed


lemma path_dict_print_line [simp]: "path_dict (print_line l s) = path_dict s"
  by (simp add: print_line_def)

lemma load_images_unfold:
  assumes pp: "lookup2 (path_dict s) subs ''pneumonia'' = Inr pp"
    and np: "lookup2 (path_dict s) subs ''normal'' = Inr np"
    and pes: "dir_entries fs pp = Some pes"
    and nes: "dir_entries fs np = Some nes"
    and s2: "s2 = s\<lparr>stdout := stdout s @ [''Loading data, subset = '' @ subs],
                     fs_log := (fs_log s @ ListDir pp # map (\<lambda>e. IsFile (join pp e)) pes)
                               @ ListDir np # map (\<lambda>e. IsFile (join np e)) nes\<rparr>"
    and r3: "read_samples ip fs subs ''pneumonia'' (regular_entries fs pp pes) [] s2 = (r3, s3)"
    and r4: "read_samples ip fs subs ''normal'' (regular_entries fs np nes) [] s3 = (r4, s4)"
  shows "load_images ip fs s subs =
     (case r3 of
        Inl e \<Rightarrow> (Inl e, s3)
      | Inr pos_images \<Rightarrow>
          (case r4 of
             Inl e \<Rightarrow> (Inl e, s4)
           | Inr neg_images \<Rightarrow>
               (case concatenate_lists pos_images neg_images of
                  Inl e \<Rightarrow> (Inl e, s4)
                | Inr images \<Rightarrow>
                    (Inr (images, replicate (length pos_images) 1 @ replicate (length neg_images) 0),
                     s4))))"
  using assms
  by (simp add: load_images_def Let_def list_files_eq print_line_def split: sum.splits)


lemma load_images_fst:
  assumes pp: "lookup2 (path_dict s) subs ''pneumonia'' = Inr pp"
    and np: "lookup2 (path_dict s) subs ''normal'' = Inr np"
    and pes: "dir_entries fs pp = Some pes"
    and nes: "dir_entries fs np = Some nes"
  shows "fst (load_images ip fs s subs) =
     (if list_all (\<lambda>x. decodable fs (pp @ x)) (regular_entries fs pp pes) \<and>
         list_all (\<lambda>x. decodable fs (np @ x)) (regular_entries fs np nes)
      then
        (case concatenate_lists (map (\<lambda>x. resized ip fs (pp @ x)) (regular_entries fs pp pes))
                                (map (\<lambda>x. resized ip fs (np @ x)) (regular_entries fs np nes)) of
           Inl e \<Rightarrow> Inl e
         | Inr images \<Rightarrow>
             Inr (images, replicate (length (regular_entries fs pp pes)) 1 @
                          replicate (length (regular_entries fs np nes)) 0))
      else Inl CvError)"
proof -
  define s2 where "s2 = s\<lparr>stdout := stdout s @ [''Loading data, subset = '' @ subs],
                     fs_log := (fs_log s @ ListDir pp # map (\<lambda>e. IsFile (join pp e)) pes)
                               @ ListDir np # map (\<lambda>e. IsFile (join np e)) nes\<rparr>"
  obtain r3 s3 where r3: "read_samples ip fs subs ''pneumonia'' (regular_entries fs pp pes) [] s2 = (r3, s3)"
    by (cases "read_samples ip fs subs ''pneumonia'' (regular_entries fs pp pes) [] s2")
  obtain r4 s4 where r4: "read_samples ip fs subs ''normal'' (regular_entries fs np nes) [] s3 = (r4, s4)"
    by (cases "read_samples ip fs subs ''normal'' (regular_entries fs np nes) [] s3")
  have pd2: "path_dict s2 = path_dict s"
    by (simp add: s2_def)
  have pd3: "path_dict s3 = path_dict s"
    using read_samples_snd [of ip fs subs "''pneumonia''" "regular_entries fs pp pes" "[]" s2] r3 pd2
    by simp
  have v3: "r3 = (if list_all (\<lambda>x. decodable fs (pp @ x)) (regular_entries fs pp pes)
                  then Inr (map (\<lambda>x. resized ip fs (pp @ x)) (regular_entries fs pp pes))
                  else Inl CvError)"
    using read_samples_fst [of s2 subs "''pneumonia''" pp ip fs "regular_entries fs pp pes" "[]"] r3 pp pd2
    by simp
  have v4: "r4 = (if list_all (\<lambda>x. decodable fs (np @ x)) (regular_entries fs np nes)
                  then Inr (map (\<lambda>x. resized ip fs (np @ x)) (regular_entries fs np nes))
                  else Inl CvError)"
    using read_samples_fst [of s3 subs "''normal''" np ip fs "regular_entries fs np nes" "[]"] r4 np pd3
    by simp
  show ?thesis
    unfolding load_images_unfold [OF pp np pes nes s2_def r3 r4] v3 v4
    by (simp split: sum.splits)
qed

lemma load_images_KeyError:
  "path_dict s subs = None \<Longrightarrow>
   load_images ip fs s subs =
     (Inl (KeyError subs), s\<lparr>stdout := stdout s @ [''Loading data, subset = '' @ subs]\<rparr>)"
  by (simp add: load_images_def lookup2_def print_line_def)

lemma load_images_state:
  "path_dict (snd (load_images ip fs s subs)) = path_dict s \<and>
   stdout (snd (load_images ip fs s subs)) = stdout s @ [''Loading data, subset = '' @ subs] \<and>
   (\<exists>ops. fs_log (snd (load_images ip fs s subs)) = fs_log s @ ops)"
proof (cases "lookup2 (path_dict s) subs ''pneumonia''")
  case (Inl e)
  then show ?thesis by (simp add: load_images_def print_line_def)
next
  case pp: (Inr pp)
  show ?thesis
  proof (cases "lookup2 (path_dict s) subs ''normal''")
    case (Inl e)
    then show ?thesis using pp by (simp add: load_images_def print_line_def)
  next
    case np: (Inr np)
    show ?thesis
    proof (cases "dir_entries fs pp")
      case None
      then show ?thesis using pp np
        by (simp add: load_images_def print_line_def list_files_eq)
    next
      case pes: (Some pes)
      show ?thesis
      proof (cases "dir_entries fs np")
        case None
        then show ?thesis using pp np pes
          by (simp add: load_images_def print_line_def list_files_eq)
      next
        case nes: (Some nes)
        define s2 where "s2 = s\<lparr>stdout := stdout s @ [''Loading data, subset = '' @ subs],
                     fs_log := (fs_log s @ ListDir pp # map (\<lambda>e. IsFile (join pp e)) pes)
                               @ ListDir np # map (\<lambda>e. IsFile (join np e)) nes\<rparr>"
        obtain r3 s3 where r3: "read_samples ip fs subs ''pneumonia'' (regular_entries fs pp pes) [] s2 = (r3, s3)"
          by (cases "read_samples ip fs subs ''pneumonia'' (regular_entries fs pp pes) [] s2")
        obtain r4 s4 where r4: "read_samples ip fs subs ''normal'' (regular_entries fs np nes) [] s3 = (r4, s4)"
          by (cases "read_samples ip fs subs ''normal'' (regular_entries fs np nes) [] s3")
        have e3: "path_dict s3 = path_dict s \<and> stdout s3 = stdout s @ [''Loading data, subset = '' @ subs]
                  \<and> (\<exists>ops. fs_log s3 = fs_log s @ ops)"
          using read_samples_snd [of ip fs subs "''pneumonia''" "regular_entries fs pp pes" "[]" s2] r3
          by (auto simp: s2_def)
        have e4: "path_dict s4 = path_dict s \<and> stdout s4 = stdout s @ [''Loading data, subset = '' @ subs]
                  \<and> (\<exists>ops. fs_log s4 = fs_log s @ ops)"
          using read_samples_snd [of ip fs subs "''normal''" "regular_entries fs np nes" "[]" s3] r4 e3
          by auto
        show ?thesis
          unfolding load_images_unfold [OF pp np pes nes s2_def r3 r4]
          using e3 e4 by (simp split: sum.splits)
      qed
    qed
  qed
qed


lemma load_images_fst_cases:
  "fst (load_images ip fs s subs) =
     (case lookup2 (path_dict s) subs ''pneumonia'' of
        Inl e \<Rightarrow> Inl e
      | Inr pp \<Rightarrow>
      (case lookup2 (path_dict s) subs ''normal'' of
        Inl e \<Rightarrow> Inl e
      | Inr np \<Rightarrow>
      (case dir_entries fs pp of
        None \<Rightarrow> Inl (FileNotFoundError pp)
      | Some pes \<Rightarrow>
      (case dir_entries fs np of
        None \<Rightarrow> Inl (FileNotFoundError np)
      | Some nes \<Rightarrow>
         if list_all (\<lambda>x. decodable fs (pp @ x)) (regular_entries fs pp pes) \<and>
            list_all (\<lambda>x. decodable fs (np @ x)) (regular_entries fs np nes)
         then
           (case concatenate_lists (map (\<lambda>x. resized ip fs (pp @ x)) (regular_entries fs pp pes))
                                   (map (\<lambda>x. resized ip fs (np @ x)) (regular_entries fs np nes)) of
              Inl e \<Rightarrow> Inl e
            | Inr images \<Rightarrow>
                Inr (images, replicate (length (regular_entries fs pp pes)) 1 @
                             replicate (length (regular_entries fs np nes)) 0))
         else Inl CvError))))"
proof (cases "lookup2 (path_dict s) subs ''pneumonia''")
  case (Inl e)
  then show ?thesis by (simp add: load_images_def Let_def)
next
  case pp: (Inr pp)
  show ?thesis
  proof (cases "lookup2 (path_dict s) subs ''normal''")
    case (Inl e)
    then show ?thesis using pp by (simp add: load_images_def Let_def)
  next
    case np: (Inr np)
    show ?thesis
    proof (cases "dir_entries fs pp")
      case None
      then show ?thesis using pp np by (simp add: load_images_def Let_def list_files_eq)
    next
      case pes: (Some pes)
      show ?thesis
      proof (cases "dir_entries fs np")
        case None
        then show ?thesis using pp np pes by (simp add: load_images_def Let_def list_files_eq)
      next
        case nes: (Some nes)
        show ?thesis
          unfolding load_images_fst [OF pp np pes nes] using pp np pes nes by simp
      qed
    qed
  qed
qed

lemma resized_dims:
  "decodable fs q \<Longrightarrow>
   rows (resized ip fs q) = 150 \<and> cols (resized ip fs q) = 150 \<and>
   length (pix (resized ip fs q)) = 22500"
proof -
  assume d: "decodable fs q"
  have len: "length (concat (map (\<lambda>r. map (f r) [0..<w]) [0..<h])) = h * w" for f :: "nat \<Rightarrow> nat \<Rightarrow> uint8" and w h
    by (induction h) (simp_all add: length_concat)
  from d obtain m where m: "decode_gray fs q = Some m" "\<not> mat_empty m"
    by (auto simp: decodable_def split: option.splits)
  then show ?thesis
    by (simp add: resized_def cv_resize_def len)
qed

lemma np_asarray_uniform:
  assumes "\<forall>m \<in> set ms. rows m = h \<and> cols m = w" and "ms \<noteq> []"
  shows "np_asarray ms = Inr \<lparr>shape = [length ms, h, w], data = concat (map pix ms)\<rparr>"
  using assms by (cases ms) (auto simp: np_asarray_def list_all_iff)

lemma concatenate_lists_both:
  assumes "\<forall>m \<in> set ps. rows m = h \<and> cols m = w" and "\<forall>m \<in> set ns. rows m = h \<and> cols m = w"
    and "ps \<noteq> []" and "ns \<noteq> []"
  shows "concatenate_lists ps ns =
           Inr \<lparr>shape = [length ps + length ns, h, w], data = concat (map pix (ps @ ns))\<rparr>"
  using assms
  by (simp add: concatenate_lists_def np_asarray_uniform [of _ h w] np_concatenate_def)

lemma concatenate_lists_none: "concatenate_lists [] [] = Inr \<lparr>shape = [0], data = []\<rparr>"
  by (simp add: concatenate_lists_def np_asarray_def np_concatenate_def)

lemma concatenate_lists_left_empty:
  assumes "\<forall>m \<in> set ns. rows m = h \<and> cols m = w" and "ns \<noteq> []"
  shows "concatenate_lists [] ns = Inl ValueError"
proof -
  have "np_asarray ([] :: mat list) = Inr \<lparr>shape = [0], data = []\<rparr>"
    by (simp add: np_asarray_def)
  then show ?thesis
    using np_asarray_uniform [OF assms]
    by (simp add: concatenate_lists_def np_concatenate_def)
qed

lemma concatenate_lists_right_empty:
  assumes "\<forall>m \<in> set ps. rows m = h \<and> cols m = w" and "ps \<noteq> []"
  shows "concatenate_lists ps [] = Inl ValueError"
proof -
  have "np_asarray ([] :: mat list) = Inr \<lparr>shape = [0], data = []\<rparr>"
    by (simp add: np_asarray_def)
  then show ?thesis
    using np_asarray_uniform [OF assms]
    by (simp add: concatenate_lists_def np_concatenate_def)
qed

lemma take_drop_concat_uniform:
  "\<forall>x \<in> set xs. length x = k \<Longrightarrow> i < length xs \<Longrightarrow>
   take k (drop (i * k) (concat xs)) = xs ! i"
proof (induction xs arbitrary: i)
  case Nil
  then show ?case by simp
next
  case (Cons x xs)
  show ?case
  proof (cases i)
    case 0
    then show ?thesis using Cons.prems by simp
  next
    case (Suc j)
    then show ?thesis using Cons.prems Cons.IH [of j] by simp
  qed
qed

lemma load_images_decodable:
  assumes pp: "lookup2 (path_dict s) subs ''pneumonia'' = Inr pp"
    and np: "lookup2 (path_dict s) subs ''normal'' = Inr np"
    and pes: "dir_entries fs pp = Some pes"
    and nes: "dir_entries fs np = Some nes"
    and pf: "pos_files = regular_entries fs pp pes"
    and nf: "neg_files = regular_entries fs np nes"
    and pd: "list_all (\<lambda>x. decodable fs (pp @ x)) pos_files"
    and nd: "list_all (\<lambda>x. decodable fs (np @ x)) neg_files"
  shows "fst (load_images ip fs s subs) =
     (if pos_files = [] \<and> neg_files = [] then Inr (\<lparr>shape = [0], data = []\<rparr>, [])
      else if pos_files = [] \<or> neg_files = [] then Inl ValueError
      else Inr (\<lparr>shape = [length pos_files + length neg_files, 150, 150],
                 data = concat (map pix (map (\<lambda>x. resized ip fs (pp @ x)) pos_files @
                                         map (\<lambda>x. resized ip fs (np @ x)) neg_files))\<rparr>,
                replicate (length pos_files) 1 @ replicate (length neg_files) 0))"
proof -
  let ?ps = "map (\<lambda>x. resized ip fs (pp @ x)) pos_files"
  let ?ns = "map (\<lambda>x. resized ip fs (np @ x)) neg_files"
  have dp: "\<forall>m \<in> set ?ps. rows m = 150 \<and> cols m = 150"
    using pd resized_dims by (auto simp: list_all_iff)
  have dn: "\<forall>m \<in> set ?ns. rows m = 150 \<and> cols m = 150"
    using nd resized_dims by (auto simp: list_all_iff)
  have v: "fst (load_images ip fs s subs) =
     (case concatenate_lists ?ps ?ns of
        Inl e \<Rightarrow> Inl e
      | Inr images \<Rightarrow>
          Inr (images, replicate (length pos_files) 1 @ replicate (length neg_files) 0))"
    using pd nd unfolding pf nf load_images_fst [OF pp np pes nes] by simp
  consider (none) "pos_files = []" "neg_files = []"
    | (left) "pos_files = []" "neg_files \<noteq> []"
    | (right) "pos_files \<noteq> []" "neg_files = []"
    | (both) "pos_files \<noteq> []" "neg_files \<noteq> []"
    by blast
  then show ?thesis
  proof cases
    case none
    then show ?thesis unfolding v by (simp add: concatenate_lists_none)
  next
    case left
    then have "concatenate_lists ?ps ?ns = Inl ValueError"
      using concatenate_lists_left_empty [OF dn] by simp
    then show ?thesis unfolding v using left by simp
  next
    case right
    then have "concatenate_lists ?ps ?ns = Inl ValueError"
      using concatenate_lists_right_empty [OF dp] by simp
    then show ?thesis unfolding v using right by simp
  next
    case both
    then have "concatenate_lists ?ps ?ns =
        Inr \<lparr>shape = [length ?ps + length ?ns, 150, 150], data = concat (map pix (?ps @ ?ns))\<rparr>"
      using concatenate_lists_both [OF dp dn] by simp
    then show ?thesis unfolding v using both by simp
  qed
qed

lemma np_index_stack:
  assumes "\<forall>m \<in> set ms. rows m = 150 \<and> cols m = 150 \<and> length (pix m) = 22500"
    and "i < length ms"
  shows "np_index \<lparr>shape = [length ms, 150, 150], data = concat (map pix ms)\<rparr> i =
           Inr (as_ndarray (ms ! i))"
proof -
  have "take 22500 (drop (i * 22500) (concat (map pix ms))) = map pix ms ! i"
    using assms by (intro take_drop_concat_uniform) auto
  then show ?thesis
    using assms by (simp add: np_index_def as_ndarray_def)
qed

lemma decodable_drop_nonregular [simp]: "decodable (drop_nonregular fs) q = decodable fs q"
  by (simp add: decodable_def drop_nonregular_def)

lemma resized_drop_nonregular [simp]: "resized ip (drop_nonregular fs) q = resized ip fs q"
  by (simp add: resized_def drop_nonregular_def)

lemma regular_entries_drop_nonregular [simp]:
  "regular_entries (drop_nonregular fs) p es = regular_entries fs p es"
  by (simp add: regular_entries_def drop_nonregular_def)

lemma regular_entries_idem [simp]:
  "regular_entries fs p (regular_entries fs p es) = regular_entries fs p es"
  by (simp add: regular_entries_def)

lemma dir_entries_drop_nonregular:
  "dir_entries (drop_nonregular fs) p = map_option (regular_entries fs p) (dir_entries fs p)"
  by (simp add: drop_nonregular_def)

lemma same_view_entries:
  "same_view fs1 fs2 d \<Longrightarrow> dir_entries fs2 d = dir_entries fs1 d"
  by (auto simp: same_view_def split: option.splits)

lemma same_view_regular:
  assumes "same_view fs1 fs2 d" and "dir_entries fs1 d = Some es"
  shows "regular_entries fs2 d es = regular_entries fs1 d es"
proof -
  from assms have "\<forall>e \<in> set es. regular_file fs1 (join d e) = regular_file fs2 (join d e)"
    by (simp add: same_view_def list_all_iff)
  then show ?thesis
    unfolding regular_entries_def by (auto intro: filter_cong)
qed

lemma same_view_decode:
  assumes "same_view fs1 fs2 d" and "dir_entries fs1 d = Some es"
    and "e \<in> set (regular_entries fs1 d es)"
  shows "decode_gray fs2 (d @ e) = decode_gray fs1 (d @ e)"
  using assms by (simp add: same_view_def list_all_iff)

lemma same_view_decodable:
  assumes "same_view fs1 fs2 d" and "dir_entries fs1 d = Some es"
  shows "list_all (\<lambda>x. decodable fs2 (d @ x)) (regular_entries fs1 d es)
       = list_all (\<lambda>x. decodable fs1 (d @ x)) (regular_entries fs1 d es)"
  using same_view_decode [OF assms]
  by (auto simp: list_all_iff decodable_def)

lemma same_view_resized:
  assumes "same_view fs1 fs2 d" and "dir_entries fs1 d = Some es"
  shows "map (\<lambda>x. resized ip fs2 (d @ x)) (regular_entries fs1 d es)
       = map (\<lambda>x. resized ip fs1 (d @ x)) (regular_entries fs1 d es)"
  using same_view_decode [OF assms]
  by (auto simp: resized_def)

lemma load_images_fst_table:
  assumes "path_dict s2 = path_dict s1"
  shows "fst (load_images ip fs s2 subs) = fst (load_images ip fs s1 subs)"
  unfolding load_images_fst_cases assms by (rule refl)

section \<open>The concrete inputs, evaluated\<close>

lemma train_pneumonia:
  "lookup2 (path_dict init_state) ''train'' ''pneumonia'' = Inr ''chest_xray/train/PNEUMONIA/''"
  by (simp add: lookup2_def init_state_def path_dict_init_def)

lemma train_normal:
  "lookup2 (path_dict init_state) ''train'' ''normal'' = Inr ''chest_xray/train/NORMAL/''"
  by (simp add: lookup2_def init_state_def path_dict_init_def)

lemma demo_pos_entries:
  "dir_entries fs_demo ''chest_xray/train/PNEUMONIA/'' = Some [''p1.jpeg'', ''extra'', ''p2.jpeg'']"
  by (simp add: fs_demo_def)

lemma demo_neg_entries:
  "dir_entries fs_demo ''chest_xray/train/NORMAL/'' = Some [''n1.jpeg'', ''n2.jpeg'', ''n3.jpeg'']"
  by (simp add: fs_demo_def)

lemma demo_pos_files:
  "regular_entries fs_demo ''chest_xray/train/PNEUMONIA/'' [''p1.jpeg'', ''extra'', ''p2.jpeg'']
     = [''p1.jpeg'', ''p2.jpeg'']"
  by (simp add: regular_entries_def fs_demo_def join_def)

lemma demo_neg_files:
  "regular_entries fs_demo ''chest_xray/train/NORMAL/'' [''n1.jpeg'', ''n2.jpeg'', ''n3.jpeg'']
     = [''n1.jpeg'', ''n2.jpeg'', ''n3.jpeg'']"
  by (simp add: regular_entries_def fs_demo_def join_def)

lemma demo_pos_decodable:
  "list_all (\<lambda>x. decodable fs_demo (''chest_xray/train/PNEUMONIA/'' @ x)) [''p1.jpeg'', ''p2.jpeg'']"
  by (simp add: decodable_def fs_demo_def tiny_image_def mat_empty_def)

lemma demo_neg_decodable:
  "list_all (\<lambda>x. decodable fs_demo (''chest_xray/train/NORMAL/'' @ x))
     [''n1.jpeg'', ''n2.jpeg'', ''n3.jpeg'']"
  by (simp add: decodable_def fs_demo_def tiny_image_def mat_empty_def)


lemma one_class_pos_entries:
  "dir_entries fs_one_class ''chest_xray/train/PNEUMONIA/'' = Some []"
  by (simp add: fs_one_class_def)

lemma one_class_neg_entries:
  "dir_entries fs_one_class ''chest_xray/train/NORMAL/'' = Some [''n1.jpeg'']"
  by (simp add: fs_one_class_def)

lemma one_class_pos_files:
  "regular_entries fs_one_class ''chest_xray/train/PNEUMONIA/'' [] = []"
  by (simp add: regular_entries_def)

lemma one_class_neg_files:
  "regular_entries fs_one_class ''chest_xray/train/NORMAL/'' [''n1.jpeg''] = [''n1.jpeg'']"
  by (simp add: regular_entries_def fs_one_class_def join_def)

lemma one_class_neg_decodable:
  "list_all (\<lambda>x. decodable fs_one_class (''chest_xray/train/NORMAL/'' @ x)) [''n1.jpeg'']"
  by (simp add: decodable_def fs_one_class_def tiny_image_def mat_empty_def)

lemma corrupt_pos_entries:
  "dir_entries fs_corrupt ''chest_xray/train/PNEUMONIA/'' = Some [''p1.jpeg'']"
  by (simp add: fs_corrupt_def)

lemma corrupt_neg_entries:
  "dir_entries fs_corrupt ''chest_xray/train/NORMAL/'' = Some [''n1.jpeg'', ''notes.txt'']"
  by (simp add: fs_corrupt_def)

lemma corrupt_pos_files:
  "regular_entries fs_corrupt ''chest_xray/train/PNEUMONIA/'' [''p1.jpeg''] = [''p1.jpeg'']"
  by (simp add: regular_entries_def fs_corrupt_def)

lemma corrupt_neg_files:
  "regular_entries fs_corrupt ''chest_xray/train/NORMAL/'' [''n1.jpeg'', ''notes.txt'']
     = [''n1.jpeg'', ''notes.txt'']"
  by (simp add: regular_entries_def fs_corrupt_def)

lemma corrupt_notes:
  "decode_gray fs_corrupt (''chest_xray/train/NORMAL/'' @ ''notes.txt'') = None"
  by (simp add: fs_corrupt_def)

lemma demo_same_view_pos: "same_view fs_demo fs_demo_more ''chest_xray/train/PNEUMONIA/''"
  by (simp add: same_view_def fs_demo_more_def fs_demo_def regular_entries_def join_def)

lemma demo_same_view_neg: "same_view fs_demo fs_demo_more ''chest_xray/train/NORMAL/''"
  by (simp add: same_view_def fs_demo_more_def fs_demo_def regular_entries_def join_def)

lemma empty_pos_entries: "dir_entries fs_empty ''chest_xray/train/PNEUMONIA/'' = Some []"
  by (simp add: fs_empty_def)

lemma empty_neg_entries: "dir_entries fs_empty ''chest_xray/train/NORMAL/'' = Some []"
  by (simp add: fs_empty_def)

lemma empty_result:
  assumes "path_dict s = path_dict_init"
  shows "fst (load_images ip fs_empty s ''train'') = Inr (\<lparr>shape = [0], data = []\<rparr>, [])"
proof -
  have pp: "lookup2 (path_dict s) ''train'' ''pneumonia'' = Inr ''chest_xray/train/PNEUMONIA/''"
    by (simp add: assms lookup2_def path_dict_init_def)
  have np: "lookup2 (path_dict s) ''train'' ''normal'' = Inr ''chest_xray/train/NORMAL/''"
    by (simp add: assms lookup2_def path_dict_init_def)
  have e: "[] = regular_entries fs_empty p []" for p
    by (simp add: regular_entries_def)
  have d: "list_all (\<lambda>x. decodable fs_empty (p @ x)) []" for p
    by simp
  show ?thesis
    unfolding load_images_decodable [OF pp np empty_pos_entries empty_neg_entries e e d d]
    by simp
qed

lemma demo_result:
  "\<exists>images labels. fst (load_images ip fs_demo init_state ''train'') = Inr (images, labels)"
  unfolding load_images_decodable
    [OF train_pneumonia train_normal demo_pos_entries demo_neg_entries
        demo_pos_files [symmetric] demo_neg_files [symmetric]
        demo_pos_decodable demo_neg_decodable]
  by simp

lemma one_class_corrupt_pos_entries:
  "dir_entries fs_one_class_corrupt ''chest_xray/train/PNEUMONIA/'' = Some []"
  by (simp add: fs_one_class_corrupt_def)

lemma one_class_corrupt_neg_entries:
  "dir_entries fs_one_class_corrupt ''chest_xray/train/NORMAL/'' = Some [''notes.txt'']"
  by (simp add: fs_one_class_corrupt_def)

lemma one_class_corrupt_neg_files:
  "regular_entries fs_one_class_corrupt ''chest_xray/train/NORMAL/'' [''notes.txt''] = [''notes.txt'']"
  by (simp add: regular_entries_def fs_one_class_corrupt_def)

lemma one_class_corrupt_result:
  "fst (load_images ip fs_one_class_corrupt init_state ''train'') = Inl CvError"
proof -
  have "\<not> decodable fs_one_class_corrupt (''chest_xray/train/NORMAL/'' @ ''notes.txt'')"
    by (simp add: decodable_def fs_one_class_corrupt_def)
  then have "\<not> (list_all (\<lambda>x. decodable fs_one_class_corrupt (''chest_xray/train/PNEUMONIA/'' @ x))
                   (regular_entries fs_one_class_corrupt ''chest_xray/train/PNEUMONIA/'' []) \<and>
                 list_all (\<lambda>x. decodable fs_one_class_corrupt (''chest_xray/train/NORMAL/'' @ x))
                   (regular_entries fs_one_class_corrupt ''chest_xray/train/NORMAL/''
                      [''notes.txt'']))"
    unfolding one_class_corrupt_neg_files by simp
  then show ?thesis
    unfolding load_images_fst
      [OF train_pneumonia train_normal one_class_corrupt_pos_entries one_class_corrupt_neg_entries]
    by (simp only: if_False)
qed

section \<open>Claims about load\_images\<close>

text \<open>
  C2. For every split name that is not a key of the path table (\<open>train\<close>, \<open>test\<close>,
  \<open>validation\<close>), \<open>load_images\<close> fails with a lookup error, \<open>KeyError\<close> of that name,
  before any disk access: the only thing it has done is print its progress line, and the
  trace of disk accesses is as it was. It never returns an image and label pair.
\<close>

theorem load_images_unknown_split:
  assumes "path_dict s = path_dict_init"
    and "subs \<notin> {''train'', ''test'', ''validation''}"
  shows "load_images ip fs s subs =
           (Inl (KeyError subs), s\<lparr>stdout := stdout s @ [''Loading data, subset = '' @ subs]\<rparr>)
         \<and> fs_log (snd (load_images ip fs s subs)) = fs_log s"
proof -
  from assms have "path_dict s subs = None"
    by (simp add: path_dict_init_def)
  then show ?thesis
    by (simp add: load_images_KeyError)
qed

theorem load_images_unknown_split_witness:
  "path_dict init_state = path_dict_init
   \<and> ''val'' \<notin> {''train'', ''test'', ''validation''}
   \<and> load_images nearest fs_demo init_state ''val'' =
       (Inl (KeyError ''val''),
        init_state\<lparr>stdout := stdout init_state @ [''Loading data, subset = '' @ ''val'']\<rparr>)
   \<and> fs_log (snd (load_images nearest fs_demo init_state ''val'')) = fs_log init_state"
proof -
  have h1: "path_dict init_state = path_dict_init"
    by (simp add: init_state_def)
  have h2: "''val'' \<notin> {''train'', ''test'', ''validation''}"
    by simp
  show ?thesis
    using load_images_unknown_split [OF h1 h2, of nearest fs_demo] h1 h2 by blast
qed

text \<open>
  C1 (as amended). For every split whose pneumonia directory lists \<open>P\<close> regular files and
  whose normal directory lists \<open>N\<close> regular files, all decodable, with \<open>P\<close> and \<open>N\<close> either
  both positive or both zero, \<open>load_images\<close> returns an array of \<open>P + N\<close> images and
  \<open>P + N\<close> labels; the first \<open>P\<close> labels are 1 and the remaining \<open>N\<close> are 0, the first \<open>P\<close>
  images are the resized pneumonia files in listing order, and the remaining \<open>N\<close> are the
  resized normal files in listing order.
\<close>

theorem load_images_pneumonia_first:
  assumes pp: "lookup2 (path_dict s) subs ''pneumonia'' = Inr pp"
    and np: "lookup2 (path_dict s) subs ''normal'' = Inr np"
    and pes: "dir_entries fs pp = Some pes"
    and nes: "dir_entries fs np = Some nes"
    and pf: "pos_files = regular_entries fs pp pes"
    and nf: "neg_files = regular_entries fs np nes"
    and pd: "list_all (\<lambda>x. decodable fs (pp @ x)) pos_files"
    and nd: "list_all (\<lambda>x. decodable fs (np @ x)) neg_files"
    and P: "P = length pos_files"
    and N: "N = length neg_files"
    and both: "(P = 0) = (N = 0)"
  shows "\<exists>images labels.
      fst (load_images ip fs s subs) = Inr (images, labels)
    \<and> np_len images = Inr (P + N)
    \<and> length labels = P + N
    \<and> take P labels = replicate P 1
    \<and> drop P labels = replicate N 0
    \<and> (\<forall>i<P. np_index images i = Inr (as_ndarray (resized ip fs (pp @ pos_files ! i))))
    \<and> (\<forall>j<N. np_index images (P + j) = Inr (as_ndarray (resized ip fs (np @ neg_files ! j))))"
proof (cases "P = 0")
  case True
  with both P N have e: "pos_files = []" "neg_files = []"
    by simp_all
  have "fst (load_images ip fs s subs) = Inr (\<lparr>shape = [0], data = []\<rparr>, [])"
    unfolding load_images_decodable [OF pp np pes nes pf nf pd nd] using e by simp
  then show ?thesis
    using e P N by (simp add: np_len_def)
next
  case False
  with both P N have ne: "pos_files \<noteq> []" "neg_files \<noteq> []"
    by auto
  let ?ms = "map (\<lambda>x. resized ip fs (pp @ x)) pos_files @ map (\<lambda>x. resized ip fs (np @ x)) neg_files"
  let ?images = "\<lparr>shape = [length ?ms, 150, 150], data = concat (map pix ?ms)\<rparr>"
  let ?labels = "replicate P (1::int) @ replicate N 0"
  have v: "fst (load_images ip fs s subs) = Inr (?images, ?labels)"
    unfolding load_images_decodable [OF pp np pes nes pf nf pd nd] using ne P N by simp
  have dims: "\<forall>m \<in> set ?ms. rows m = 150 \<and> cols m = 150 \<and> length (pix m) = 22500"
    using pd nd resized_dims by (auto simp: list_all_iff)
  have pos: "np_index ?images i = Inr (as_ndarray (resized ip fs (pp @ pos_files ! i)))"
    if "i < P" for i
  proof -
    from that P have "i < length ?ms" by simp
    from np_index_stack [OF dims this] that P show ?thesis
      by (simp add: nth_append)
  qed
  have neg: "np_index ?images (P + j) = Inr (as_ndarray (resized ip fs (np @ neg_files ! j)))"
    if "j < N" for j
  proof -
    from that P N have "P + j < length ?ms" by simp
    from np_index_stack [OF dims this] that P N show ?thesis
      by (simp add: nth_append)
  qed
  have "np_len ?images = Inr (P + N)"
    using P N by (simp add: np_len_def)
  moreover have "length ?labels = P + N" "take P ?labels = replicate P 1"
    "drop P ?labels = replicate N 0"
    by simp_all
  ultimately show ?thesis
    using v pos neg by blast
qed

theorem load_images_pneumonia_first_witness:
  "\<exists>images labels.
      fst (load_images nearest fs_demo init_state ''train'') = Inr (images, labels)
    \<and> np_len images = Inr (2 + 3)
    \<and> length labels = 2 + 3
    \<and> take 2 labels = replicate 2 1
    \<and> drop 2 labels = replicate 3 0
    \<and> (\<forall>i<2. np_index images i =
          Inr (as_ndarray (resized nearest fs_demo
                 (''chest_xray/train/PNEUMONIA/'' @ [''p1.jpeg'', ''p2.jpeg''] ! i))))
    \<and> (\<forall>j<3. np_index images (2 + j) =
          Inr (as_ndarray (resized nearest fs_demo
                 (''chest_xray/train/NORMAL/'' @ [''n1.jpeg'', ''n2.jpeg'', ''n3.jpeg''] ! j))))"
proof -
  have P: "(2::nat) = length [''p1.jpeg'', ''p2.jpeg'']" by simp
  have N: "(3::nat) = length [''n1.jpeg'', ''n2.jpeg'', ''n3.jpeg'']" by simp
  have both: "((2::nat) = 0) = ((3::nat) = 0)" by simp
  show ?thesis
    by (rule load_images_pneumonia_first
          [OF train_pneumonia train_normal demo_pos_entries demo_neg_entries
              demo_pos_files [symmetric] demo_neg_files [symmetric]
              demo_pos_decodable demo_neg_decodable P N both])
qed

text \<open>
  C1 as stated also covers a split with one empty class. There the loader does not
  return: with no pneumonia file and one decodable normal file, \<open>np.concatenate\<close> is
  given a one-dimensional empty array and a three-dimensional one, and raises.
\<close>

theorem load_images_pneumonia_first_counterexample:
  "lookup2 (path_dict init_state) ''train'' ''pneumonia'' = Inr ''chest_xray/train/PNEUMONIA/''
   \<and> lookup2 (path_dict init_state) ''train'' ''normal'' = Inr ''chest_xray/train/NORMAL/''
   \<and> dir_entries fs_one_class ''chest_xray/train/PNEUMONIA/'' = Some []
   \<and> dir_entries fs_one_class ''chest_xray/train/NORMAL/'' = Some [''n1.jpeg'']
   \<and> regular_entries fs_one_class ''chest_xray/train/NORMAL/'' [''n1.jpeg''] = [''n1.jpeg'']
   \<and> decodable fs_one_class ''chest_xray/train/NORMAL/n1.jpeg''
   \<and> fst (load_images nearest fs_one_class init_state ''train'') = Inl ValueError"
proof -
  have d: "list_all (\<lambda>x. decodable fs_one_class (''chest_xray/train/PNEUMONIA/'' @ x)) []"
    by simp
  have "fst (load_images nearest fs_one_class init_state ''train'') = Inl ValueError"
    unfolding load_images_decodable
      [OF train_pneumonia train_normal one_class_pos_entries one_class_neg_entries
          one_class_pos_files [symmetric] one_class_neg_files [symmetric]
          d one_class_neg_decodable]
    by simp
  then show ?thesis
    using train_pneumonia train_normal one_class_pos_entries one_class_neg_entries
      one_class_neg_files one_class_neg_decodable
    by simp
qed

text \<open>
  C3. For every split with at least one pneumonia file and at least one normal file, all
  decodable, \<open>load_images\<close> returns an array of shape \<open>(P + N, 150, 150)\<close>, and every image
  in it, \<open>images[i]\<close>, has shape \<open>(150, 150)\<close> and 22500 pixels. Nothing is assumed about
  the resolution of the files on disk beyond their being non-empty images.
\<close>

theorem load_images_shape:
  assumes pp: "lookup2 (path_dict s) subs ''pneumonia'' = Inr pp"
    and np: "lookup2 (path_dict s) subs ''normal'' = Inr np"
    and pes: "dir_entries fs pp = Some pes"
    and nes: "dir_entries fs np = Some nes"
    and pf: "pos_files = regular_entries fs pp pes"
    and nf: "neg_files = regular_entries fs np nes"
    and pd: "list_all (\<lambda>x. decodable fs (pp @ x)) pos_files"
    and nd: "list_all (\<lambda>x. decodable fs (np @ x)) neg_files"
    and p1: "1 \<le> length pos_files"
    and n1: "1 \<le> length neg_files"
  shows "\<exists>images labels.
      fst (load_images ip fs s subs) = Inr (images, labels)
    \<and> shape images = [length pos_files + length neg_files, 150, 150]
    \<and> (\<forall>i < length pos_files + length neg_files.
          \<exists>img. np_index images i = Inr img \<and> shape img = [150, 150]
                \<and> length (data img) = 150 * 150)"
proof -
  from p1 n1 have ne: "pos_files \<noteq> []" "neg_files \<noteq> []"
    by auto
  let ?ms = "map (\<lambda>x. resized ip fs (pp @ x)) pos_files @ map (\<lambda>x. resized ip fs (np @ x)) neg_files"
  let ?images = "\<lparr>shape = [length ?ms, 150, 150], data = concat (map pix ?ms)\<rparr>"
  let ?labels = "replicate (length pos_files) (1::int) @ replicate (length neg_files) 0"
  have v: "fst (load_images ip fs s subs) = Inr (?images, ?labels)"
    unfolding load_images_decodable [OF pp np pes nes pf nf pd nd] using ne by simp
  have dims: "\<forall>m \<in> set ?ms. rows m = 150 \<and> cols m = 150 \<and> length (pix m) = 22500"
    using pd nd resized_dims by (auto simp: list_all_iff)
  have each: "\<exists>img. np_index ?images i = Inr img \<and> shape img = [150, 150]
                \<and> length (data img) = 150 * 150"
    if "i < length pos_files + length neg_files" for i
  proof -
    from that have i: "i < length ?ms" by simp
    then have "?ms ! i \<in> set ?ms" by (rule nth_mem)
    with dims have "rows (?ms ! i) = 150 \<and> cols (?ms ! i) = 150 \<and> length (pix (?ms ! i)) = 22500"
      by blast
    with np_index_stack [OF dims i] show ?thesis
      by (simp add: as_ndarray_def)
  qed
  have "shape ?images = [length pos_files + length neg_files, 150, 150]"
    by simp
  with v each show ?thesis by blast
qed

theorem load_images_shape_witness:
  "\<exists>images labels.
      fst (load_images nearest fs_demo init_state ''train'') = Inr (images, labels)
    \<and> shape images = [length [''p1.jpeg'', ''p2.jpeg''] + length [''n1.jpeg'', ''n2.jpeg'', ''n3.jpeg''],
                       150, 150]
    \<and> (\<forall>i < length [''p1.jpeg'', ''p2.jpeg''] + length [''n1.jpeg'', ''n2.jpeg'', ''n3.jpeg''].
          \<exists>img. np_index images i = Inr img \<and> shape img = [150, 150]
                \<and> length (data img) = 150 * 150)"
proof -
  have p1: "1 \<le> length [''p1.jpeg'', ''p2.jpeg'']" by simp
  have n1: "1 \<le> length [''n1.jpeg'', ''n2.jpeg'', ''n3.jpeg'']" by simp
  show ?thesis
    by (rule load_images_shape
          [OF train_pneumonia train_normal demo_pos_entries demo_neg_entries
              demo_pos_files [symmetric] demo_neg_files [symmetric]
              demo_pos_decodable demo_neg_decodable p1 n1])
qed

text \<open>
  C4. For a train split with exactly two decodable pneumonia files and three decodable
  normal files, \<open>load_images('train')\<close> returns the labels \<open>[1, 1, 0, 0, 0]\<close> and an image
  array of shape \<open>(5, 150, 150)\<close>.
\<close>

theorem load_images_two_and_three:
  assumes tab: "path_dict s = path_dict_init"
    and pes: "dir_entries fs ''chest_xray/train/PNEUMONIA/'' = Some pes"
    and nes: "dir_entries fs ''chest_xray/train/NORMAL/'' = Some nes"
    and pf: "pos_files = regular_entries fs ''chest_xray/train/PNEUMONIA/'' pes"
    and nf: "neg_files = regular_entries fs ''chest_xray/train/NORMAL/'' nes"
    and pd: "list_all (\<lambda>x. decodable fs (''chest_xray/train/PNEUMONIA/'' @ x)) pos_files"
    and nd: "list_all (\<lambda>x. decodable fs (''chest_xray/train/NORMAL/'' @ x)) neg_files"
    and p2: "length pos_files = 2"
    and n3: "length neg_files = 3"
  shows "\<exists>images.
      fst (load_images ip fs s ''train'') = Inr (images, [1, 1, 0, 0, 0])
    \<and> shape images = [5, 150, 150]"
proof -
  have pp: "lookup2 (path_dict s) ''train'' ''pneumonia'' = Inr ''chest_xray/train/PNEUMONIA/''"
    by (simp add: tab lookup2_def path_dict_init_def)
  have np: "lookup2 (path_dict s) ''train'' ''normal'' = Inr ''chest_xray/train/NORMAL/''"
    by (simp add: tab lookup2_def path_dict_init_def)
  from p2 n3 have ne: "pos_files \<noteq> []" "neg_files \<noteq> []"
    by auto
  have r2: "replicate 2 (1::int) = [1, 1]" and r3: "replicate 3 (0::int) = [0, 0, 0]"
    by (simp_all add: numeral_2_eq_2 numeral_3_eq_3)
  show ?thesis
    unfolding load_images_decodable [OF pp np pes nes pf nf pd nd]
    using ne p2 n3 r2 r3 by simp
qed

theorem load_images_two_and_three_witness:
  "\<exists>images.
      fst (load_images nearest fs_demo init_state ''train'') = Inr (images, [1, 1, 0, 0, 0])
    \<and> shape images = [5, 150, 150]"
proof -
  have tab: "path_dict init_state = path_dict_init"
    by (simp add: init_state_def)
  have p2: "length [''p1.jpeg'', ''p2.jpeg''] = 2" by simp
  have n3: "length [''n1.jpeg'', ''n2.jpeg'', ''n3.jpeg''] = 3" by simp
  show ?thesis
    by (rule load_images_two_and_three
          [OF tab demo_pos_entries demo_neg_entries
              demo_pos_files [symmetric] demo_neg_files [symmetric]
              demo_pos_decodable demo_neg_decodable p2 n3])
qed

text \<open>
  C9 (as amended). For every split in which exactly one of the two class directories has
  no regular file while the other has at least one, \<open>load_images\<close> does not return the
  images of the non-empty class: if every file is decodable, both loops complete and the
  call fails when combining the two image collections (\<open>np.concatenate\<close> of collections
  of unequal dimensionality, a \<open>ValueError\<close>); otherwise it fails earlier, in the loop,
  with the error of \<open>cv.resize\<close>. Hence \<open>load_images\<close> returns a pair only when both
  classes are non-empty or both are empty.
\<close>

theorem load_images_one_class_empty:
  assumes pp: "lookup2 (path_dict s) subs ''pneumonia'' = Inr pp"
    and np: "lookup2 (path_dict s) subs ''normal'' = Inr np"
    and pes: "dir_entries fs pp = Some pes"
    and nes: "dir_entries fs np = Some nes"
    and pf: "pos_files = regular_entries fs pp pes"
    and nf: "neg_files = regular_entries fs np nes"
  shows "((length pos_files = 0 \<and> 1 \<le> length neg_files) \<or>
          (1 \<le> length pos_files \<and> length neg_files = 0) \<longrightarrow>
            (if list_all (\<lambda>x. decodable fs (pp @ x)) pos_files \<and>
                list_all (\<lambda>x. decodable fs (np @ x)) neg_files
             then fst (load_images ip fs s subs) = Inl ValueError
                  \<and> concatenate_lists (map (\<lambda>x. resized ip fs (pp @ x)) pos_files)
                                       (map (\<lambda>x. resized ip fs (np @ x)) neg_files)
                      = Inl ValueError
             else fst (load_images ip fs s subs) = Inl CvError))
       \<and> ((\<exists>images labels. fst (load_images ip fs s subs) = Inr (images, labels)) \<longrightarrow>
            (length pos_files = 0 \<longleftrightarrow> length neg_files = 0))"
proof -
  let ?ps = "map (\<lambda>x. resized ip fs (pp @ x)) pos_files"
  let ?ns = "map (\<lambda>x. resized ip fs (np @ x)) neg_files"
  let ?dec = "list_all (\<lambda>x. decodable fs (pp @ x)) pos_files \<and>
              list_all (\<lambda>x. decodable fs (np @ x)) neg_files"
  let ?one = "(length pos_files = 0 \<and> 1 \<le> length neg_files) \<or>
              (1 \<le> length pos_files \<and> length neg_files = 0)"
  have undec: "fst (load_images ip fs s subs) = Inl CvError" if "\<not> ?dec"
    using that unfolding pf nf load_images_fst [OF pp np pes nes] by (simp only: if_False)
  have dec: "fst (load_images ip fs s subs) = Inl ValueError
             \<and> concatenate_lists ?ps ?ns = Inl ValueError" if d: "?dec" and one: "?one"
  proof -
    from d have pd: "list_all (\<lambda>x. decodable fs (pp @ x)) pos_files"
      and nd: "list_all (\<lambda>x. decodable fs (np @ x)) neg_files"
      by simp_all
    have dp: "\<forall>m \<in> set ?ps. rows m = 150 \<and> cols m = 150"
      using pd resized_dims by (auto simp: list_all_iff)
    have dn: "\<forall>m \<in> set ?ns. rows m = 150 \<and> cols m = 150"
      using nd resized_dims by (auto simp: list_all_iff)
    from one have e: "(pos_files = [] \<and> neg_files \<noteq> []) \<or> (pos_files \<noteq> [] \<and> neg_files = [])"
      by auto
    then have "concatenate_lists ?ps ?ns = Inl ValueError"
      using concatenate_lists_left_empty [OF dn] concatenate_lists_right_empty [OF dp] by auto
    moreover have "fst (load_images ip fs s subs) = Inl ValueError"
      unfolding load_images_decodable [OF pp np pes nes pf nf pd nd] using e by auto
    ultimately show ?thesis by simp
  qed
  have first: "?one \<longrightarrow>
      (if ?dec then fst (load_images ip fs s subs) = Inl ValueError
                    \<and> concatenate_lists ?ps ?ns = Inl ValueError
       else fst (load_images ip fs s subs) = Inl CvError)"
  proof
    assume one: ?one
    show "if ?dec then fst (load_images ip fs s subs) = Inl ValueError
                    \<and> concatenate_lists ?ps ?ns = Inl ValueError
          else fst (load_images ip fs s subs) = Inl CvError"
    proof (cases ?dec)
      case True
      show ?thesis unfolding if_P [OF True] by (rule dec [OF True one])
    next
      case False
      show ?thesis unfolding if_not_P [OF False] by (rule undec [OF False])
    qed
  qed
  have fails: "\<exists>e. fst (load_images ip fs s subs) = Inl e" if "?one"
    using dec undec that by (cases ?dec) blast+
  have second: "(\<exists>images labels. fst (load_images ip fs s subs) = Inr (images, labels)) \<longrightarrow>
                (length pos_files = 0 \<longleftrightarrow> length neg_files = 0)"
  proof
    assume "\<exists>images labels. fst (load_images ip fs s subs) = Inr (images, labels)"
    then have "\<not> (\<exists>e. fst (load_images ip fs s subs) = Inl e)"
      by auto
    with fails have "\<not> ?one" by blast
    then show "length pos_files = 0 \<longleftrightarrow> length neg_files = 0"
      by (cases pos_files; cases neg_files) simp_all
  qed
  from first second show ?thesis by (rule conjI)
qed

theorem load_images_one_class_empty_witness:
  "fst (load_images nearest fs_one_class init_state ''train'') = Inl ValueError
   \<and> concatenate_lists
        (map (\<lambda>x. resized nearest fs_one_class (''chest_xray/train/PNEUMONIA/'' @ x)) [])
        (map (\<lambda>x. resized nearest fs_one_class (''chest_xray/train/NORMAL/'' @ x)) [''n1.jpeg''])
       = Inl ValueError
   \<and> (\<exists>images labels. fst (load_images nearest fs_demo init_state ''train'') = Inr (images, labels))
   \<and> (length [''p1.jpeg'', ''p2.jpeg''] = 0 \<longleftrightarrow> length [''n1.jpeg'', ''n2.jpeg'', ''n3.jpeg''] = 0)"
proof -
  have one: "(length ([] :: string list) = 0 \<and> 1 \<le> length [''n1.jpeg'']) \<or>
             (1 \<le> length ([] :: string list) \<and> length [''n1.jpeg''] = 0)"
    by simp
  have d: "list_all (\<lambda>x. decodable fs_one_class (''chest_xray/train/PNEUMONIA/'' @ x)) [] \<and>
           list_all (\<lambda>x. decodable fs_one_class (''chest_xray/train/NORMAL/'' @ x)) [''n1.jpeg'']"
    using one_class_neg_decodable by simp
  have a: "fst (load_images nearest fs_one_class init_state ''train'') = Inl ValueError
     \<and> concatenate_lists
        (map (\<lambda>x. resized nearest fs_one_class (''chest_xray/train/PNEUMONIA/'' @ x)) [])
        (map (\<lambda>x. resized nearest fs_one_class (''chest_xray/train/NORMAL/'' @ x)) [''n1.jpeg''])
       = Inl ValueError"
    using load_images_one_class_empty
      [OF train_pneumonia train_normal one_class_pos_entries one_class_neg_entries
          one_class_pos_files [symmetric] one_class_neg_files [symmetric], of nearest,
       THEN conjunct1, rule_format, OF one]
      d
    by (simp only: if_True)
  have b: "length [''p1.jpeg'', ''p2.jpeg''] = 0 \<longleftrightarrow> length [''n1.jpeg'', ''n2.jpeg'', ''n3.jpeg''] = 0"
    by (rule load_images_one_class_empty
      [OF train_pneumonia train_normal demo_pos_entries demo_neg_entries
          demo_pos_files [symmetric] demo_neg_files [symmetric], of nearest,
       THEN conjunct2, rule_format, OF demo_result])
  from a b demo_result [of nearest] show ?thesis by blast
qed

text \<open>
  C9 as stated fails in two places. With an empty pneumonia directory and one normal file
  that is not an image, the call fails in the second loop, before the collections are
  combined. With both directories empty, the call returns the empty array and the empty
  label list, so the contract on \<open>P + N\<close> images also holds when no class is non-empty.
\<close>

theorem load_images_one_class_empty_counterexample:
  "dir_entries fs_one_class_corrupt ''chest_xray/train/PNEUMONIA/'' = Some []
   \<and> dir_entries fs_one_class_corrupt ''chest_xray/train/NORMAL/'' = Some [''notes.txt'']
   \<and> regular_entries fs_one_class_corrupt ''chest_xray/train/NORMAL/'' [''notes.txt'']
       = [''notes.txt'']
   \<and> fst (load_images nearest fs_one_class_corrupt init_state ''train'') = Inl CvError
   \<and> dir_entries fs_empty ''chest_xray/train/PNEUMONIA/'' = Some []
   \<and> dir_entries fs_empty ''chest_xray/train/NORMAL/'' = Some []
   \<and> fst (load_images nearest fs_empty init_state ''train'')
       = Inr (\<lparr>shape = [0], data = []\<rparr>, [])"
proof -
  have tab: "path_dict init_state = path_dict_init"
    by (simp add: init_state_def)
  show ?thesis
    using one_class_corrupt_pos_entries one_class_corrupt_neg_entries
      one_class_corrupt_neg_files one_class_corrupt_result [of nearest]
      empty_pos_entries empty_neg_entries empty_result [OF tab, of nearest]
    by simp
qed

text \<open>
  C6. For every split in which some regular file of either class directory cannot be
  decoded (\<open>cv.imread\<close> yields no image), \<open>load_images\<close> raises the error of \<open>cv.resize\<close>:
  the file is not skipped and no dataset is returned.
\<close>

theorem load_images_undecodable:
  assumes pp: "lookup2 (path_dict s) subs ''pneumonia'' = Inr pp"
    and np: "lookup2 (path_dict s) subs ''normal'' = Inr np"
    and pes: "dir_entries fs pp = Some pes"
    and nes: "dir_entries fs np = Some nes"
    and pf: "pos_files = regular_entries fs pp pes"
    and nf: "neg_files = regular_entries fs np nes"
    and bad: "(x \<in> set pos_files \<and> decode_gray fs (pp @ x) = None) \<or>
              (x \<in> set neg_files \<and> decode_gray fs (np @ x) = None)"
  shows "fst (load_images ip fs s subs) = Inl CvError"
proof -
  from bad have "(x \<in> set pos_files \<and> \<not> decodable fs (pp @ x)) \<or>
                 (x \<in> set neg_files \<and> \<not> decodable fs (np @ x))"
    by (auto simp: decodable_def)
  then have "\<not> (list_all (\<lambda>x. decodable fs (pp @ x)) (regular_entries fs pp pes) \<and>
                 list_all (\<lambda>x. decodable fs (np @ x)) (regular_entries fs np nes))"
    unfolding pf nf by (auto simp: list_all_iff)
  then show ?thesis
    unfolding load_images_fst [OF pp np pes nes] by (simp only: if_False)
qed

theorem load_images_undecodable_witness:
  "fst (load_images nearest fs_corrupt init_state ''train'') = Inl CvError"
proof -
  have bad: "(''notes.txt'' \<in> set [''p1.jpeg'']
                \<and> decode_gray fs_corrupt (''chest_xray/train/PNEUMONIA/'' @ ''notes.txt'') = None) \<or>
             (''notes.txt'' \<in> set [''n1.jpeg'', ''notes.txt'']
                \<and> decode_gray fs_corrupt (''chest_xray/train/NORMAL/'' @ ''notes.txt'') = None)"
    using corrupt_notes by simp
  show ?thesis
    by (rule load_images_undecodable
          [OF train_pneumonia train_normal corrupt_pos_entries corrupt_neg_entries
              corrupt_pos_files [symmetric] corrupt_neg_files [symmetric] bad])
qed

text \<open>
  C5. \<open>load_images\<close> considers only regular files: for every split, what it returns (or
  raises) is what it returns on the same disk with every directory entry that is not a
  regular file removed. Such an entry contributes neither an image nor a label.
\<close>

theorem load_images_ignores_nonregular:
  "fst (load_images ip (drop_nonregular fs) s subs) = fst (load_images ip fs s subs)"
  by (simp add: load_images_fst_cases dir_entries_drop_nonregular
           split: sum.splits option.splits)

theorem load_images_ignores_nonregular_witness:
  "dir_entries fs_demo ''chest_xray/train/PNEUMONIA/'' = Some [''p1.jpeg'', ''extra'', ''p2.jpeg'']
   \<and> dir_entries (drop_nonregular fs_demo) ''chest_xray/train/PNEUMONIA/''
       = Some [''p1.jpeg'', ''p2.jpeg'']
   \<and> fst (load_images nearest (drop_nonregular fs_demo) init_state ''train'')
       = fst (load_images nearest fs_demo init_state ''train'')"
  using load_images_ignores_nonregular [of nearest fs_demo init_state "''train''"]
    demo_pos_entries demo_pos_files
  by (simp add: dir_entries_drop_nonregular)

text \<open>
  C10. \<open>load_images\<close> is deterministic with respect to what it observes of the
  filesystem: for every split, two calls, from any two process states with the same path
  table, on two disks that show the same listings of the two class directories (in the
  same order), the same regular files among them and the same decoded contents of those
  files, return identical image arrays and identical label lists (or raise the same
  error).
\<close>

theorem load_images_deterministic:
  assumes tab: "path_dict s2 = path_dict s1"
    and pp: "lookup2 (path_dict s1) subs ''pneumonia'' = Inr pp"
    and np: "lookup2 (path_dict s1) subs ''normal'' = Inr np"
    and vp: "same_view fs1 fs2 pp"
    and vn: "same_view fs1 fs2 np"
  shows "fst (load_images ip fs2 s2 subs) = fst (load_images ip fs1 s1 subs)"
proof (cases "dir_entries fs1 pp")
  case None
  then show ?thesis
    using tab pp np same_view_entries [OF vp] by (simp add: load_images_fst_cases)
next
  case pes: (Some pes)
  show ?thesis
  proof (cases "dir_entries fs1 np")
    case None
    then show ?thesis
      using tab pp np pes same_view_entries [OF vp] same_view_entries [OF vn]
      by (simp add: load_images_fst_cases)
  next
    case nes: (Some nes)
    have pes2: "dir_entries fs2 pp = Some pes" and nes2: "dir_entries fs2 np = Some nes"
      using pes nes same_view_entries [OF vp] same_view_entries [OF vn] by simp_all
    have pp2: "lookup2 (path_dict s2) subs ''pneumonia'' = Inr pp"
      and np2: "lookup2 (path_dict s2) subs ''normal'' = Inr np"
      using tab pp np by simp_all
    show ?thesis
      unfolding load_images_fst [OF pp np pes nes] load_images_fst [OF pp2 np2 pes2 nes2]
        same_view_regular [OF vp pes] same_view_regular [OF vn nes]
        same_view_decodable [OF vp pes] same_view_decodable [OF vn nes]
        same_view_resized [OF vp pes] same_view_resized [OF vn nes]
      by (rule refl)
  qed
qed

theorem load_images_deterministic_witness:
  "fs_demo_more \<noteq> fs_demo \<and> busy_state \<noteq> init_state
   \<and> fst (load_images nearest fs_demo_more busy_state ''train'')
       = fst (load_images nearest fs_demo init_state ''train'')"
proof -
  have tab: "path_dict busy_state = path_dict init_state"
    by (simp add: busy_state_def init_state_def)
  have "dir_entries fs_demo_more ''chest_xray/test/NORMAL/'' \<noteq> dir_entries fs_demo ''chest_xray/test/NORMAL/''"
    by (simp add: fs_demo_more_def fs_demo_def)
  then have d1: "fs_demo_more \<noteq> fs_demo" by auto
  have "stdout busy_state \<noteq> stdout init_state"
    by (simp add: busy_state_def init_state_def)
  then have d2: "busy_state \<noteq> init_state" by auto
  show ?thesis
    using load_images_deterministic
      [OF tab train_pneumonia train_normal demo_same_view_pos demo_same_view_neg, of nearest]
      d1 d2
    by simp
qed

text \<open>
  C8 (as amended). Beyond reading from disk, the only side effect of \<open>load_images\<close> is
  the progress line it prints: for every split, a call leaves the path table unchanged,
  appends exactly the line \<open>Loading data, subset = <name>\<close> to standard output, only
  adds disk reads to the trace, and retains no cache: a later call, whatever the disk has
  become in the meantime, returns what it would have returned without the earlier call,
  computed from the disk as it then is and the path table alone.
\<close>

theorem load_images_frame:
  "path_dict (snd (load_images ip fs1 s subs)) = path_dict s
   \<and> stdout (snd (load_images ip fs1 s subs)) = stdout s @ [''Loading data, subset = '' @ subs]
   \<and> (\<exists>ops. fs_log (snd (load_images ip fs1 s subs)) = fs_log s @ ops)
   \<and> fst (load_images ip fs2 (snd (load_images ip fs1 s subs)) later)
       = fst (load_images ip fs2 s later)"
proof -
  have "path_dict (snd (load_images ip fs1 s subs)) = path_dict s"
    using load_images_state [of ip fs1 s subs] by simp
  from load_images_fst_table [OF this] load_images_state [of ip fs1 s subs]
  show ?thesis by simp
qed

theorem load_images_frame_witness:
  "fst (load_images nearest fs_empty (snd (load_images nearest fs_demo init_state ''train'')) ''train'')
     = Inr (\<lparr>shape = [0], data = []\<rparr>, [])
   \<and> path_dict (snd (load_images nearest fs_demo init_state ''train'')) = path_dict_init
   \<and> stdout (snd (load_images nearest fs_demo init_state ''train''))
       = [''Loading data, subset = train'']"
proof -
  have tab: "path_dict init_state = path_dict_init"
    by (simp add: init_state_def)
  show ?thesis
    using load_images_frame [of nearest fs_demo init_state "''train''" fs_empty "''train''"]
      empty_result [OF tab, of nearest]
    by (simp add: init_state_def)
qed

text \<open>
  C8 as stated leaves all program state other than the disk reads unchanged. Standard
  output is not: line 24 prints on every call.
\<close>

theorem load_images_frame_counterexample:
  "stdout (snd (load_images nearest fs_demo init_state ''train'')) \<noteq> stdout init_state"
  using load_images_state [of nearest fs_demo init_state "''train''"]
  by (simp add: init_state_def)

section \<open>Claims about the CNN evaluation path\<close>

text \<open>
  C7. In the CNN evaluation path, there is one row of predictions for each row of outputs
  of the network, and every predicted label is 1 exactly when the sigmoid output at its
  position strictly exceeds 0.5, and 0 otherwise; an output equal to 0.5 maps to 0, and
  every prediction is 0 or 1.
\<close>

theorem cnn_predictions_threshold:
  assumes out: "out = model_predict (expand_dims_last X_test)"
    and preds: "preds = cnn_predictions model_predict X_test"
  shows "length preds = length out
    \<and> (\<forall>i < length out. length (preds ! i) = length (out ! i)
         \<and> (\<forall>j < length (out ! i).
               (preds ! i ! j = 1 \<or> preds ! i ! j = 0)
             \<and> (preds ! i ! j = 1 \<longleftrightarrow> fgt (out ! i ! j) (Finite (1 / 2)))
             \<and> (\<forall>v. out ! i ! j = Finite v \<longrightarrow> (preds ! i ! j = 1 \<longleftrightarrow> 1 / 2 < v))
             \<and> (out ! i ! j = Finite (1 / 2) \<longrightarrow> preds ! i ! j = 0)))"
proof -
  have p: "preds = map (map (\<lambda>x. if fgt x (Finite (1 / 2)) then 1 else 0)) out"
    unfolding preds out
    by (simp add: cnn_predictions_def astype_int32_def np_greater_def Let_def comp_def)
  have cell: "preds ! i ! j = (if fgt (out ! i ! j) (Finite (1 / 2)) then 1 else 0)"
    if "i < length out" "j < length (out ! i)" for i j
    using that by (simp add: p)
  have row: "length (preds ! i) = length (out ! i)" if "i < length out" for i
    using that by (simp add: p)
  have "length preds = length out"
    by (simp add: p)
  moreover have "(preds ! i ! j = 1 \<or> preds ! i ! j = 0)
             \<and> (preds ! i ! j = 1 \<longleftrightarrow> fgt (out ! i ! j) (Finite (1 / 2)))
             \<and> (\<forall>v. out ! i ! j = Finite v \<longrightarrow> (preds ! i ! j = 1 \<longleftrightarrow> 1 / 2 < v))
             \<and> (out ! i ! j = Finite (1 / 2) \<longrightarrow> preds ! i ! j = 0)"
    if "i < length out" "j < length (out ! i)" for i j
    using cell [OF that] by auto
  ultimately show ?thesis
    using row by blast
qed

theorem cnn_predictions_threshold_witness:
  "demo_model (expand_dims_last demo_X_test) ! 1 ! 0 = Finite (1 / 2)
   \<and> cnn_predictions demo_model demo_X_test ! 1 ! 0 = 0
   \<and> demo_model (expand_dims_last demo_X_test) ! 0 ! 0 = Finite (9 / 10)
   \<and> cnn_predictions demo_model demo_X_test ! 0 ! 0 = 1"
proof -
  have len: "length (demo_model (expand_dims_last demo_X_test)) = 4"
    by (simp add: demo_model_def)
  have r0: "demo_model (expand_dims_last demo_X_test) ! 0 = [Finite (9 / 10)]"
    and r1: "demo_model (expand_dims_last demo_X_test) ! 1 = [Finite (1 / 2)]"
    by (simp_all add: demo_model_def)
  from cnn_predictions_threshold [OF refl refl, of demo_model demo_X_test]
  have all: "\<forall>i < length (demo_model (expand_dims_last demo_X_test)).
         \<forall>j < length (demo_model (expand_dims_last demo_X_test) ! i).
           (cnn_predictions demo_model demo_X_test ! i ! j = 1 \<or>
            cnn_predictions demo_model demo_X_test ! i ! j = 0)
         \<and> (cnn_predictions demo_model demo_X_test ! i ! j = 1 \<longleftrightarrow>
              fgt (demo_model (expand_dims_last demo_X_test) ! i ! j) (Finite (1 / 2)))"
    by blast
  have c1: "cnn_predictions demo_model demo_X_test ! 1 ! 0 = 0"
    using all [rule_format, of 1 0] len r1 by auto
  have c0: "cnn_predictions demo_model demo_X_test ! 0 ! 0 = 1"
    using all [rule_format, of 0 0] len r0 by simp
  show ?thesis
    using c0 c1 r0 r1 by simp
qed

end
